theory Spec2Isabelle
  imports Complex_Main "HOL-Library.AList"
begin

section \<open>Text\<close>

text \<open>
  A Python \<open>str\<close> is modelled as a \<open>string\<close>; a \<open>char\<close> stands for the code point of
  the same number, so the texts covered are those over the code points below 256.
  On these, \<open>str.isspace\<close>, \<open>str.strip\<close> and the class \<open>\s\<close> of \<open>re\<close> agree on the
  whitespace characters listed in \<open>isspace\<close>, and matching an ASCII letter under
  \<open>re.IGNORECASE\<close> is matching it up to ASCII case.
\<close>

definition isspace :: "char \<Rightarrow> bool" where
  "isspace c \<longleftrightarrow>
     c \<in> set [CHR 0x09, CHR 0x0A, CHR 0x0B, CHR 0x0C, CHR 0x0D,
                CHR 0x1C, CHR 0x1D, CHR 0x1E, CHR 0x1F, CHR 0x20, CHR 0x85, CHR 0xA0]"

definition strip :: "string \<Rightarrow> string" where
  "strip s = rev (dropWhile isspace (rev (dropWhile isspace s)))"

definition lower :: "char \<Rightarrow> char" where
  "lower c =
     (case map_of (zip ''ABCDEFGHIJKLMNOPQRSTUVWXYZ'' ''abcdefghijklmnopqrstuvwxyz'') c of
        None \<Rightarrow> c
      | Some l \<Rightarrow> l)"

text \<open>\<open>startswith s p\<close> is \<open>s.startswith(p)\<close>; \<open>contains sub s\<close> is \<open>sub in s\<close>.\<close>

fun startswith :: "string \<Rightarrow> string \<Rightarrow> bool" where
  "startswith s [] = True"
| "startswith [] (p # ps) = False"
| "startswith (c # cs) (p # ps) = (c = p \<and> startswith cs ps)"

fun contains :: "string \<Rightarrow> string \<Rightarrow> bool" where
  "contains sub [] = (sub = [])"
| "contains sub (c # cs) = (startswith (c # cs) sub \<or> contains sub cs)"

section \<open>The patterns of \<open>parse_response\<close> and \<open>re.search\<close> on them\<close>

text \<open>
  Each of the five patterns has the shape \<open>TAG:\s*(.+?)(?:A|B|...)\<close> and is searched
  with \<open>re.IGNORECASE | re.DOTALL\<close>. A pattern is kept as its tag and the list of the
  alternatives of its closing group, in the order of the source.
\<close>

datatype stop = Newline | Literal string | EndOfText

type_synonym pattern = "string \<times> stop list"

text \<open>A literal of the pattern at the start of the text, ignoring case: the rest of the text.\<close>

fun lit_ci :: "string \<Rightarrow> string \<Rightarrow> string option" where
  "lit_ci [] s = Some s"
| "lit_ci (p # ps) [] = None"
| "lit_ci (p # ps) (c # cs) = (if lower p = lower c then lit_ci ps cs else None)"

text \<open>
  One alternative of the closing group at the start of the text. Without
  \<open>re.MULTILINE\<close>, \<open>$\<close> matches at the end of the text and before a line break that
  ends the text.
\<close>

fun stop_at :: "stop \<Rightarrow> string \<Rightarrow> bool" where
  "stop_at Newline s = (case s of [] \<Rightarrow> False | c # cs \<Rightarrow> c = CHR 0x0A)"
| "stop_at (Literal t) s = (lit_ci t s \<noteq> None)"
| "stop_at EndOfText s = (s = [] \<or> s = [CHR 0x0A])"

definition closes :: "stop list \<Rightarrow> string \<Rightarrow> bool" where
  "closes sts s = list_ex (\<lambda>st. stop_at st s) sts"

text \<open>
  The group \<open>(.+?)\<close> followed by the closing group: under \<open>re.DOTALL\<close> the dot takes
  any character; the lazy repetition takes one character, then tries the closing
  group, and takes one more character each time that fails. The result is the text
  of group 1.
\<close>

fun lazy_group :: "stop list \<Rightarrow> string \<Rightarrow> string option" where
  "lazy_group sts [] = None"
| "lazy_group sts (c # cs) =
     (if closes sts cs then Some [c] else map_option ((#) c) (lazy_group sts cs))"

text \<open>
  \<open>\s*\<close> followed by the rest \<open>k\<close> of the pattern: the greedy repetition takes a
  whitespace character and goes on; when the rest of the pattern fails after that,
  it gives the character back and the rest is tried from there.
\<close>

fun spaces_then :: "(string \<Rightarrow> string option) \<Rightarrow> string \<Rightarrow> string option" where
  "spaces_then k [] = k []"
| "spaces_then k (c # cs) =
     (if isspace c
      then (case spaces_then k cs of Some g \<Rightarrow> Some g | None \<Rightarrow> k (c # cs))
      else k (c # cs))"

definition match_at :: "pattern \<Rightarrow> string \<Rightarrow> string option" where
  "match_at p s = (case lit_ci (fst p) s of
      None \<Rightarrow> None
    | Some r \<Rightarrow> spaces_then (lazy_group (snd p)) r)"

text \<open>\<open>re.search\<close>: the match at the leftmost position that has one; its group 1.\<close>

fun re_search :: "pattern \<Rightarrow> string \<Rightarrow> string option" where
  "re_search p [] = match_at p []"
| "re_search p (c # cs) =
     (case match_at p (c # cs) of Some g \<Rightarrow> Some g | None \<Rightarrow> re_search p cs)"

section \<open>\<open>parse_response\<close>\<close>

type_synonym fields = "(string \<times> string) list"

definition parsed_defaults :: fields where
  "parsed_defaults =
     [(''sender'', ''Unknown''),
      (''type'', ''Unknown''),
      (''aircraft'', ''Not specified''),
      (''details'', ''No details provided''),
      (''response'', ''No response generated'')]"

definition patterns :: "(string \<times> pattern) list" where
  "patterns =
     [(''sender'', (''SENDER:'', [Newline, EndOfText])),
      (''type'', (''TYPE:'', [Newline, EndOfText])),
      (''aircraft'', (''AIRCRAFT:'', [Newline, EndOfText])),
      (''details'', (''DETAILS:'', [Newline, Literal ''RESPONSE:'', EndOfText])),
      (''response'', (''RESPONSE:'', [Newline, EndOfText]))]"

text \<open>One round of the loop over \<open>patterns.items()\<close>.\<close>

definition extract_field :: "string \<Rightarrow> fields \<Rightarrow> string \<times> pattern \<Rightarrow> fields" where
  "extract_field response parsed kp =
     (case re_search (snd kp) response of
        None \<Rightarrow> parsed
      | Some g \<Rightarrow>
          (let v = strip g in
           if v \<noteq> [] \<and> v \<noteq> ''[Not specified]'' \<and> v \<noteq> ''N/A''
           then AList.update (fst kp) v parsed
           else parsed))"

definition parse_response :: "string \<Rightarrow> fields" where
  "parse_response response =
     (if response = [] \<or> contains ''Error:'' response
      then AList.update ''details''
             (if response \<noteq> [] then response else ''No response received'')
             parsed_defaults
      else foldl (extract_field response) parsed_defaults patterns)"

section \<open>Python values, requests and the processor\<close>

text \<open>
  The values that \<open>response.json()\<close> can give, and that the dictionaries of
  \<open>classify_message\<close> hold. A \<open>dict\<close> with text keys is an association list, read
  with \<open>map_of\<close>.
\<close>

datatype pyval =
    PNone
  | PBool bool
  | PInt int
  | PFloat real
  | PStr string
  | PList "pyval list"
  | PDict "(string \<times> pyval) list"

type_synonym dict = "(string \<times> pyval) list"

record ATCMessageProcessor =
  ollama_url :: string
  model :: string

text \<open>
  An exception, by what the \<open>except\<close> clauses of \<open>call_ollama_api\<close> look at: whether it
  is an instance of \<open>requests.exceptions.RequestException\<close>, whether it is an instance
  of \<open>json.JSONDecodeError\<close>, and \<open>str(e)\<close>. Only instances of \<open>Exception\<close> are
  modelled.
\<close>

record exn =
  is_RequestException :: bool
  is_JSONDecodeError :: bool
  str_of :: string

text \<open>The arguments of \<open>requests.post\<close>, and what the code reads of its result.\<close>

record request =
  url :: string
  json_payload :: pyval
  headers :: "(string \<times> string) list"
  timeout :: nat

record response =
  status_code :: int
  body_text :: string
  json :: "exn + pyval"

text \<open>
  The errors that the interpreter itself raises in the code below: a missing
  attribute, \<open>len\<close> of a value that has none, a slice of a value that cannot be
  sliced, \<open>re.search\<close> in a value that is not text. None of them is a
  \<open>RequestException\<close> or a \<open>JSONDecodeError\<close>. Their message is left to the environment.
\<close>

datatype fault =
    NoAttribute pyval string
  | NoLen pyval
  | NoSlice pyval
  | NotText pyval

text \<open>
  The environment of a call: the endpoint behind \<open>requests.post\<close>, and the messages
  of the interpreter.
\<close>

record env =
  post :: "request \<Rightarrow> exn + response"
  fault_text :: "fault \<Rightarrow> string"

definition raised :: "env \<Rightarrow> fault \<Rightarrow> exn" where
  "raised E f =
     \<lparr>is_RequestException = False, is_JSONDecodeError = False, str_of = fault_text E f\<rparr>"

section \<open>\<open>generate_classification_prompt\<close>\<close>

definition generate_classification_prompt :: "string \<Rightarrow> string \<Rightarrow> string" where
  "generate_classification_prompt message sender_type =
    (let sender_instruction =
       (if sender_type = ''AUTO''
        then ''1. Determine if the message is from a PILOT or from ATC (Air Traffic Control). ATC messages often contain instructions, clearances, or information directed at an aircraft (e.g., 'cleared for takeoff', 'squawk 7700', 'contact tower'). Pilot messages are often read-backs of instructions, requests, or reports (e.g., 'ready for departure', 'requesting higher altitude', 'Mayday').''
        else if sender_type = ''PILOT''
        then ''1. This message is from a PILOT''
        else ''1. This message is from ATC (Air Traffic Control)'');
      response_instruction =
       (if sender_type = ''AUTO''
        then ''4. Provide appropriate response (if from PILOT, give ATC response; if from ATC, give PILOT response)''
        else if sender_type = ''PILOT''
        then ''4. Provide appropriate ATC response to this pilot message''
        else ''4. Provide appropriate PILOT response to this ATC message'')
     in
      ''\<newline>'' @
      ''You are an ATC Message Classification System. Analyze this aviation communication message and classify it.\<newline>'' @
      ''\<newline>'' @
      ''Message: \"'' @
      message @
      ''\"\<newline>'' @
      ''Sender Type: '' @
      sender_type @
      ''\<newline>'' @
      ''\<newline>'' @
      ''Your task:\<newline>'' @
      sender_instruction @
      ''\<newline>'' @
      ''2. Classify the message type (EMERGENCY, NORMAL, WEATHER, TRAFFIC, etc.)\<newline>'' @
      ''3. Extract key information (aircraft ID, runway, altitude, etc.)\<newline>'' @
      response_instruction @
      ''\<newline>'' @
      ''\<newline>'' @
      ''PILOT RESPONSE FORMAT:\<newline>'' @
      ''ALways put flight number at the end while generating flight response.\<newline>'' @
      ''When generating a PILOT response, it must be a concise read-back of the key instruction. It should not be a long sentence.\<newline>'' @
      ''The flight number should come at end (this is must).\<newline>'' @
      ''If you do not know the answer just say COPY along with flight number.\<newline>'' @
      ''For example:\<newline>'' @
      ''\<newline>'' @
      ''- ATC: Airbus AI101 San Francisco Tower. Altimeter 2992 Make straight in.\<newline>'' @
      ''- PILOT: Fly straight in runway 28R Airbus AI101.\<newline>'' @
      ''- ATC: Cessna VT-YSU Approach Squawk 4307\<newline>'' @
      ''- PILOT: Squawk 4307 Cessna YSU\<newline>'' @
      ''- ATC: N300EP radio check\<newline>'' @
      ''- PILOT:N300EP 5 by 5\<newline>'' @
      ''- ATC: Boeing BA202 Altimeter 2992 departure to the west approved.\<newline>'' @
      ''- PILOT: Cleared for takeoff runway 28R\<newline>'' @
      ''- ATC: Delta 789, contact departure on 121.9.\<newline>'' @
      ''- PILOT: Copied Delta 789.\<newline>'' @
      ''- ATC: United 456, climb and maintain one zero thousand feet.\<newline>'' @
      ''- PILOT: Climbing to one zero thousand, United 456.\<newline>'' @
      ''- ATC: Southwest 123, turn right heading two five zero.\<newline>'' @
      ''- PILOT: Right heading two five zero, Southwest 123.\<newline>'' @
      ''- ATC: American 789, hold short of runway two eight right.\<newline>'' @
      ''- PILOT: Holding short two eight right, American 789.\<newline>'' @
      ''-ATC:N350KA you are off course Correct and resume own navigation\<newline>'' @
      ''-PILOT:Correcting and resuming own navigation N350KA\<newline>'' @
      ''-ATC:N750BG you are off course Correct and resume own navigation\<newline>'' @
      ''-PILOT:Correcting and resuming own navigation N750BG\<newline>'' @
      ''\<newline>'' @
      ''Respond in this exact format:\<newline>'' @
      ''SENDER: [PILOT/ATC]\<newline>'' @
      ''TYPE: [EMERGENCY/NORMAL/WEATHER/TRAFFIC/NAVIGATION/FUEL/RUNWAY/COMMUNICATION]\<newline>'' @
      ''AIRCRAFT: [Call sign if mentioned]\<newline>'' @
      ''DETAILS: [Brief description]\<newline>'' @
      ''RESPONSE: [Appropriate response - ATC response if sender is PILOT, PILOT response if sender is ATC]\<newline>'')"

section \<open>\<open>call_ollama_api\<close>\<close>

text \<open>\<open>str\<close> of an integer, as the f-string renders \<open>response.status_code\<close>.\<close>

fun str_nat :: "nat \<Rightarrow> string" where
  "str_nat n =
     (if n < 10 then [char_of (48 + n)]
      else str_nat (n div 10) @ [char_of (48 + n mod 10)])"

definition str_int :: "int \<Rightarrow> string" where
  "str_int i = (if i < 0 then CHR ''-'' # str_nat (nat (- i)) else str_nat (nat i))"

definition request_of :: "ATCMessageProcessor \<Rightarrow> string \<Rightarrow> request" where
  "request_of self prompt =
     \<lparr>url = ollama_url self,
      json_payload =
        PDict [(''model'', PStr (model self)),
               (''messages'',
                PList [PDict [(''role'', PStr ''user''), (''content'', PStr prompt)]]),
               (''stream'', PBool False)],
      headers = [(''Content-Type'', ''application/json'')],
      timeout = 30\<rparr>"

text \<open>
  The lines of the status-200 branch on the decoded body: \<open>result.keys()\<close>,
  \<open>result.get("message", {}).get("content", "")\<close>, \<open>len(content)\<close> and
  \<open>content[:200]\<close> (both inside log lines), \<open>return content\<close>.
\<close>

definition dict_get :: "dict \<Rightarrow> string \<Rightarrow> pyval \<Rightarrow> pyval" where
  "dict_get d k dflt = (case map_of d k of None \<Rightarrow> dflt | Some v \<Rightarrow> v)"

definition content_of :: "env \<Rightarrow> pyval \<Rightarrow> exn + pyval" where
  "content_of E result =
     (case result of
        PDict d \<Rightarrow>
          (case dict_get d ''message'' (PDict []) of
             PDict m \<Rightarrow>
               (let content = dict_get m ''content'' (PStr []) in
                case content of
                  PStr s \<Rightarrow> Inr content
                | PList xs \<Rightarrow> Inr content
                | PDict c \<Rightarrow> Inl (raised E (NoSlice content))
                | _ \<Rightarrow> Inl (raised E (NoLen content)))
           | other \<Rightarrow> Inl (raised E (NoAttribute other ''get'')))
      | _ \<Rightarrow> Inl (raised E (NoAttribute result ''keys'')))"

text \<open>The body of the \<open>try\<close> block: an exception that escapes it, or the value returned.\<close>

definition try_body :: "env \<Rightarrow> ATCMessageProcessor \<Rightarrow> string \<Rightarrow> exn + pyval" where
  "try_body E self prompt =
     (case post E (request_of self prompt) of
        Inl e \<Rightarrow> Inl e
      | Inr r \<Rightarrow>
          if status_code r = 200
          then (case json r of Inl e \<Rightarrow> Inl e | Inr result \<Rightarrow> content_of E result)
          else Inr (PStr (''Error: HTTP '' @ str_int (status_code r) @ '' - '' @ body_text r)))"

text \<open>The three \<open>except\<close> clauses, in the order of the source.\<close>

definition except_clauses :: "exn \<Rightarrow> pyval" where
  "except_clauses e =
     (if is_RequestException e then PStr (''Connection Error: '' @ str_of e)
      else if is_JSONDecodeError e then PStr (''JSON Error: '' @ str_of e)
      else PStr (''Unexpected Error: '' @ str_of e))"

text \<open>
  \<open>call_ollama_api\<close> returns its value and the requests sent so far: the list \<open>sent\<close>
  with the one request of this call added.
\<close>

definition call_ollama_api ::
  "env \<Rightarrow> ATCMessageProcessor \<Rightarrow> string \<Rightarrow> request list \<Rightarrow> pyval \<times> request list" where
  "call_ollama_api E self prompt sent =
     ((case try_body E self prompt of Inl e \<Rightarrow> except_clauses e | Inr v \<Rightarrow> v),
      sent @ [request_of self prompt])"

section \<open>\<open>classify_message\<close>\<close>

text \<open>
  \<open>parse_response\<close> on whatever value \<open>classify_message\<close> hands to it. On text it is
  the function above. On a list, the first lines (\<open>len\<close>, the slice, \<open>not response\<close>,
  \<open>"Error:" in response\<close>) work as on text, with membership in place of the
  substring test, and \<open>re.search\<close> raises. Any other value fails in the two log
  lines that open the function.
\<close>

fun truthy :: "pyval \<Rightarrow> bool" where
  "truthy PNone = False"
| "truthy (PBool b) = b"
| "truthy (PInt i) = (i \<noteq> 0)"
| "truthy (PFloat r) = (r \<noteq> 0)"
| "truthy (PStr s) = (s \<noteq> [])"
| "truthy (PList xs) = (xs \<noteq> [])"
| "truthy (PDict d) = (d \<noteq> [])"

definition text_fields :: "fields \<Rightarrow> dict" where
  "text_fields parsed = map (\<lambda>kv. (fst kv, PStr (snd kv))) parsed"

definition parse_response_any :: "env \<Rightarrow> pyval \<Rightarrow> exn + dict" where
  "parse_response_any E response =
     (case response of
        PStr s \<Rightarrow> Inr (text_fields (parse_response s))
      | PList xs \<Rightarrow>
          if xs = [] then
            Inr (AList.update ''details'' (PStr ''No response received'')
                   (text_fields parsed_defaults))
          else if PStr ''Error:'' \<in> set xs then
            Inr (AList.update ''details'' response (text_fields parsed_defaults))
          else Inl (raised E (NotText response))
      | PDict d \<Rightarrow> Inl (raised E (NoSlice response))
      | _ \<Rightarrow> Inl (raised E (if truthy response then NoLen response else NoSlice response)))"

text \<open>
  \<open>classify_message\<close>: the dictionary returned, or the exception that escapes, and
  the requests sent so far.
\<close>

definition classify_message ::
  "env \<Rightarrow> ATCMessageProcessor \<Rightarrow> string \<Rightarrow> string \<Rightarrow> request list
     \<Rightarrow> (exn + dict) \<times> request list" where
  "classify_message E self message sender_type sent =
     (if strip message = [] then
        (Inr [(''success'', PBool False),
              (''error'', PStr ''Please enter a message to classify''),
              (''data'', PDict [])],
         sent)
      else
        (let prompt = generate_classification_prompt message sender_type;
             (raw_response, sent') = call_ollama_api E self prompt sent
         in if raw_response = PNone then
              (Inr [(''success'', PBool False),
                    (''error'', PStr ''No response from Ollama API''),
                    (''data'', PDict [])],
               sent')
            else
              (case parse_response_any E raw_response of
                 Inl e \<Rightarrow> (Inl e, sent')
               | Inr parsed_data \<Rightarrow>
                   (Inr [(''success'', PBool True),
                         (''error'', PNone),
                         (''data'', PDict parsed_data),
                         (''raw_response'', raw_response)],
                    sent'))))"

section \<open>Fixtures\<close>

text \<open>
  The processor that \<open>__init__\<close> builds from its default arguments, and an
  environment whose endpoint gives the same outcome to every request.
\<close>

definition default_processor :: ATCMessageProcessor where
  "default_processor =
     \<lparr>ollama_url = ''http://127.0.0.1:11434/api/chat'', model = ''gemma3:4b''\<rparr>"

definition stub_env :: "exn + response \<Rightarrow> env" where
  "stub_env outcome = \<lparr>post = (\<lambda>req. outcome), fault_text = (\<lambda>f. ''fault'')\<rparr>"

definition connection_refused :: exn where
  "connection_refused =
     \<lparr>is_RequestException = True, is_JSONDecodeError = False, str_of = ''refused''\<rparr>"

definition http_reply :: "int \<Rightarrow> string \<Rightarrow> pyval \<Rightarrow> response" where
  "http_reply status body decoded = \<lparr>status_code = status, body_text = body, json = Inr decoded\<rparr>"

text \<open>Whether a decoded body has a list at \<open>message.content\<close>.\<close>

definition list_content :: "pyval \<Rightarrow> bool" where
  "list_content result =
     (case result of
        PDict d \<Rightarrow>
          (case dict_get d ''message'' (PDict []) of
             PDict m \<Rightarrow> (case dict_get m ''content'' (PStr []) of PList xs \<Rightarrow> True | _ \<Rightarrow> False)
           | _ \<Rightarrow> False)
      | _ \<Rightarrow> False)"

section \<open>Facts about text\<close>

lemma all_dropWhile: "(\<forall>x\<in>set (dropWhile P s). P x) \<longleftrightarrow> (\<forall>x\<in>set s. P x)"
  by (induction s) auto

lemma strip_Nil_iff: "strip s = [] \<longleftrightarrow> (\<forall>c\<in>set s. isspace c)"
  by (simp add: strip_def all_dropWhile)

lemma startswith_append: "startswith (p @ r) p"
  by (induction p) auto

lemma contains_startswith: "startswith s sub \<Longrightarrow> contains sub s"
  by (cases s) (auto elim: startswith.elims)

lemma contains_append: "contains sub (pre @ sub @ rest)"
proof (induction pre)
  case Nil
  show ?case using contains_startswith [OF startswith_append] by simp
next
  case (Cons a pre)
  then show ?case by simp
qed

section \<open>Facts about the search\<close>

lemma lit_ci_same: "map lower t = map lower tag \<Longrightarrow> lit_ci tag (t @ r) = Some r"
proof (induction tag arbitrary: t)
  case Nil
  then show ?case by simp
next
  case (Cons p ps)
  then obtain c cs where t: "t = c # cs" by (cases t) auto
  with Cons.prems have "lower p = lower c" "map lower cs = map lower ps" by auto
  with Cons.IH [of cs] t show ?case by simp
qed

lemma lazy_group_value:
  assumes "\<forall>i<length v. \<not> closes sts (drop i (v @ rest))" and "closes sts rest"
  shows "lazy_group sts (c # v @ rest) = Some (c # v)"
  using assms
proof (induction v arbitrary: c)
  case Nil
  then show ?case by simp
next
  case (Cons d v)
  from Cons.prems(1) have here: "\<not> closes sts (d # v @ rest)" by force
  have "\<forall>i<length v. \<not> closes sts (drop i (v @ rest))"
  proof (intro allI impI)
    fix i assume "i < length v"
    then have "Suc i < length (d # v)" by simp
    with Cons.prems(1) have "\<not> closes sts (drop (Suc i) ((d # v) @ rest))" by blast
    then show "\<not> closes sts (drop i (v @ rest))" by simp
  qed
  with Cons.IH [of d] Cons.prems(2) have "lazy_group sts (d # v @ rest) = Some (d # v)" by simp
  with here show ?case by simp
qed

lemma spaces_then_skip:
  assumes "\<forall>x\<in>set ws. isspace x" and "\<not> isspace c" and "k (c # cs) = Some g"
  shows "spaces_then k (ws @ c # cs) = Some g"
  using assms by (induction ws) auto

lemma re_search_here: "match_at p s = Some g \<Longrightarrow> re_search p s = Some g"
  by (cases s) auto

lemma re_search_skip:
  assumes "\<forall>i<length pre. lit_ci (fst p) (drop i (pre @ s)) = None"
  shows "re_search p (pre @ s) = re_search p s"
  using assms
proof (induction pre)
  case Nil
  then show ?case by simp
next
  case (Cons a pre)
  from Cons.prems have "lit_ci (fst p) (drop 0 ((a # pre) @ s)) = None" by blast
  then have here: "match_at p (a # pre @ s) = None" by (simp add: match_at_def)
  have "\<forall>i<length pre. lit_ci (fst p) (drop i (pre @ s)) = None"
  proof (intro allI impI)
    fix i assume "i < length pre"
    then have "Suc i < length (a # pre)" by simp
    with Cons.prems have "lit_ci (fst p) (drop (Suc i) ((a # pre) @ s)) = None" by blast
    then show "lit_ci (fst p) (drop i (pre @ s)) = None" by simp
  qed
  with Cons.IH have "re_search p (pre @ s) = re_search p s" by simp
  with here show ?case by simp
qed

lemma re_search_shape:
  assumes "\<forall>i<length pre. lit_ci tag (drop i (pre @ t @ ws @ c # v @ rest)) = None"
    and "map lower t = map lower tag"
    and "\<forall>x\<in>set ws. isspace x" and "\<not> isspace c"
    and "\<forall>i<length v. \<not> closes sts (drop i (v @ rest))" and "closes sts rest"
  shows "re_search (tag, sts) (pre @ t @ ws @ c # v @ rest) = Some (c # v)"
proof -
  have "lazy_group sts (c # v @ rest) = Some (c # v)"
    using assms(5,6) by (rule lazy_group_value)
  then have "spaces_then (lazy_group sts) (ws @ c # v @ rest) = Some (c # v)"
    using assms(3,4) by (simp add: spaces_then_skip)
  then have "match_at (tag, sts) (t @ ws @ c # v @ rest) = Some (c # v)"
    using lit_ci_same [OF assms(2)] by (simp add: match_at_def)
  then have "re_search (tag, sts) (t @ ws @ c # v @ rest) = Some (c # v)"
    by (rule re_search_here)
  moreover have "re_search (tag, sts) (pre @ t @ ws @ c # v @ rest)
      = re_search (tag, sts) (t @ ws @ c # v @ rest)"
    using assms(1) by (intro re_search_skip) simp
  ultimately show ?thesis by simp
qed


lemma closes_details:
  "closes [Newline, Literal ''RESPONSE:'', EndOfText] s \<longleftrightarrow>
     s = [] \<or> (\<exists>r. s = CHR 0x0A # r) \<or> lit_ci ''RESPONSE:'' s \<noteq> None"
  by (cases s) (auto simp: closes_def)

section \<open>Facts about the loop of \<open>parse_response\<close>\<close>

lemma map_of_extract_field:
  "map_of (extract_field raw parsed (k, p)) k' =
     (case re_search p raw of
        None \<Rightarrow> map_of parsed k'
      | Some g \<Rightarrow>
          if k' = k \<and> strip g \<noteq> [] \<and> strip g \<noteq> ''[Not specified]'' \<and> strip g \<noteq> ''N/A''
          then Some (strip g) else map_of parsed k')"
  by (simp add: extract_field_def Let_def update_conv' split: option.splits)

lemma keys_extract_field:
  "fst kp \<in> fst ` set parsed \<Longrightarrow> map fst (extract_field raw parsed kp) = map fst parsed"
  by (simp add: extract_field_def Let_def update_keys split: option.splits)

lemma keys_foldl_extract:
  "fst ` set ps \<subseteq> fst ` set parsed \<Longrightarrow>
     map fst (foldl (extract_field raw) parsed ps) = map fst parsed"
proof (induction ps arbitrary: parsed)
  case Nil
  then show ?case by simp
next
  case (Cons kp ps)
  then have k: "map fst (extract_field raw parsed kp) = map fst parsed"
    by (simp add: keys_extract_field)
  then have "fst ` set (extract_field raw parsed kp) = fst ` set parsed"
    by (metis list.set_map)
  with Cons.prems have "fst ` set ps \<subseteq> fst ` set (extract_field raw parsed kp)" by simp
  from Cons.IH [OF this] k show ?case by simp
qed

lemma map_of_foldl_other:
  "k \<notin> fst ` set ps \<Longrightarrow> map_of (foldl (extract_field raw) parsed ps) k = map_of parsed k"
proof (induction ps arbitrary: parsed)
  case Nil
  then show ?case by simp
next
  case (Cons kp ps)
  obtain k' p' where kp: "kp = (k', p')" by (cases kp)
  with Cons.prems have "k \<noteq> k'" "k \<notin> fst ` set ps" by auto
  with Cons.IH [of "extract_field raw parsed kp"] kp show ?case
    by (simp add: map_of_extract_field split: option.splits)
qed

lemma map_of_foldl_extract:
  assumes "distinct (map fst ps)" and "(k, p) \<in> set ps"
  shows "map_of (foldl (extract_field raw) parsed ps) k =
     (case re_search p raw of
        None \<Rightarrow> map_of parsed k
      | Some g \<Rightarrow>
          if strip g \<noteq> [] \<and> strip g \<noteq> ''[Not specified]'' \<and> strip g \<noteq> ''N/A''
          then Some (strip g) else map_of parsed k)"
  using assms
proof (induction ps arbitrary: parsed)
  case Nil
  then show ?case by simp
next
  case (Cons kp ps)
  show ?case
  proof (cases "kp = (k, p)")
    case True
    with Cons.prems(1) have "k \<notin> fst ` set ps" by auto
    then have "map_of (foldl (extract_field raw) (extract_field raw parsed kp) ps) k
        = map_of (extract_field raw parsed kp) k"
      by (rule map_of_foldl_other)
    with True show ?thesis by (simp add: map_of_extract_field split: option.splits)
  next
    case False
    with Cons.prems(2) have in_ps: "(k, p) \<in> set ps" by simp
    obtain k' p' where kp: "kp = (k', p')" by (cases kp)
    from in_ps Cons.prems(1) kp have "k' \<noteq> k" by force
    then have "map_of (extract_field raw parsed kp) k = map_of parsed k"
      by (simp add: kp map_of_extract_field split: option.splits)
    moreover from Cons.prems(1) have "distinct (map fst ps)" by simp
    ultimately show ?thesis
      using Cons.IH [OF _ in_ps, of "extract_field raw parsed kp"]
      by (simp split: option.splits)
  qed
qed

lemma distinct_patterns: "distinct (map fst patterns)"
  by (simp add: patterns_def)

lemma field_of_parse_response:
  assumes "raw \<noteq> []" and "\<not> contains ''Error:'' raw" and "(k, p) \<in> set patterns"
  shows "map_of (parse_response raw) k =
     (case re_search p raw of
        None \<Rightarrow> map_of parsed_defaults k
      | Some g \<Rightarrow>
          if strip g \<noteq> [] \<and> strip g \<noteq> ''[Not specified]'' \<and> strip g \<noteq> ''N/A''
          then Some (strip g) else map_of parsed_defaults k)"
  using assms map_of_foldl_extract [OF distinct_patterns assms(3)]
  by (simp add: parse_response_def)

lemma keys_parse_response:
  "map fst (parse_response raw) = [''sender'', ''type'', ''aircraft'', ''details'', ''response'']"
proof (cases "raw = [] \<or> contains ''Error:'' raw")
  case True
  then show ?thesis by (auto simp: parse_response_def parsed_defaults_def)
next
  case False
  have "fst ` set patterns \<subseteq> fst ` set parsed_defaults"
    by (simp add: patterns_def parsed_defaults_def)
  from keys_foldl_extract [OF this] False show ?thesis
    by (simp add: parse_response_def) (simp add: parsed_defaults_def)
qed

section \<open>The short-circuit of \<open>parse_response\<close>\<close>

text \<open>
  Claim C4. For every reply that is empty or contains \<open>Error:\<close> anywhere,
  \<open>parse_response\<close> returns the defaults in every field except \<open>details\<close>, which is
  the reply itself, or \<open>No response received\<close> for the empty reply.
\<close>

theorem parse_response_error_text:
  assumes "response = [] \<or> contains ''Error:'' response"
  shows "parse_response response =
     [(''sender'', ''Unknown''),
      (''type'', ''Unknown''),
      (''aircraft'', ''Not specified''),
      (''details'', if response = [] then ''No response received'' else response),
      (''response'', ''No response generated'')]"
  using assms by (auto simp: parse_response_def parsed_defaults_def)

theorem parse_response_error_text_witness:
  "parse_response ''Model said: Error: none'' =
     [(''sender'', ''Unknown''),
      (''type'', ''Unknown''),
      (''aircraft'', ''Not specified''),
      (''details'', ''Model said: Error: none''),
      (''response'', ''No response generated'')]
   \<and> parse_response [] =
     [(''sender'', ''Unknown''),
      (''type'', ''Unknown''),
      (''aircraft'', ''Not specified''),
      (''details'', ''No response received''),
      (''response'', ''No response generated'')]"
proof -
  have h: "contains ''Error:'' ''Model said: Error: none''" by code_simp
  show ?thesis
    using parse_response_error_text [of "''Model said: Error: none''"]
          parse_response_error_text [of "[]"] h
    by simp
qed

section \<open>The text of a transport failure\<close>

text \<open>
  Claim C1, as the code has it. When \<open>requests.post\<close> raises a \<open>RequestException\<close>
  (no name resolution, connection refused, timeout), \<open>call_ollama_api\<close> returns
  \<open>Connection Error: \<close> followed by the detail. The text contains \<open>Error:\<close>, which is
  what \<open>parse_response\<close> looks for, and has nothing in front of \<open>Connection\<close>.
\<close>

theorem connection_error_text:
  assumes "post E (request_of self prompt) = Inl e" and "is_RequestException e"
  shows "fst (call_ollama_api E self prompt sent) = PStr (''Connection Error: '' @ str_of e)
       \<and> contains ''Error:'' (''Connection Error: '' @ str_of e)"
proof
  show "fst (call_ollama_api E self prompt sent) = PStr (''Connection Error: '' @ str_of e)"
    using assms by (simp add: call_ollama_api_def try_body_def except_clauses_def)
  have "contains ''Error:'' (''Connection '' @ ''Error:'' @ (CHR '' '' # str_of e))"
    by (rule contains_append)
  then show "contains ''Error:'' (''Connection Error: '' @ str_of e)" by simp
qed

theorem connection_error_text_witness:
  "fst (call_ollama_api (stub_env (Inl connection_refused)) default_processor ''hello'' [])
     = PStr ''Connection Error: refused''
   \<and> contains ''Error:'' ''Connection Error: refused''"
  using connection_error_text [of "stub_env (Inl connection_refused)" default_processor "''hello''"
          connection_refused "[]"]
  by (simp add: stub_env_def connection_refused_def)

text \<open>
  The claim as written asks for a text that begins with \<open>Error: Connection Error:\<close>.
  A refused connection gives a text that does not.
\<close>

theorem connection_error_prefix_counterexample:
  "fst (call_ollama_api (stub_env (Inl connection_refused)) default_processor ''hello'' [])
     = PStr ''Connection Error: refused''
   \<and> \<not> startswith ''Connection Error: refused'' ''Error: Connection Error:''"
  by (simp add: call_ollama_api_def try_body_def except_clauses_def stub_env_def
        connection_refused_def)

section \<open>Facts about \<open>call_ollama_api\<close>\<close>

lemma except_clauses_text: "\<exists>s. except_clauses e = PStr s"
  by (simp add: except_clauses_def)

lemma content_of_cases:
  "(\<exists>e. content_of E result = Inl e)
   \<or> (\<exists>s. content_of E result = Inr (PStr s))
   \<or> (list_content result \<and> (\<exists>xs. content_of E result = Inr (PList xs)))"
  by (simp add: content_of_def list_content_def Let_def split: pyval.splits)

lemma call_ollama_api_cases:
  "(\<exists>s. fst (call_ollama_api E self prompt sent) = PStr s)
   \<or> (\<exists>r result xs. post E (request_of self prompt) = Inr r \<and> status_code r = 200
        \<and> json r = Inr result \<and> list_content result
        \<and> fst (call_ollama_api E self prompt sent) = PList xs)"
proof (cases "post E (request_of self prompt)")
  case (Inl e)
  then show ?thesis
    using except_clauses_text [of e] by (simp add: call_ollama_api_def try_body_def)
next
  case (Inr r)
  show ?thesis
  proof (cases "status_code r = 200")
    case False
    with Inr show ?thesis by (simp add: call_ollama_api_def try_body_def)
  next
    case True
    show ?thesis
    proof (cases "json r")
      case (Inl e)
      with Inr True show ?thesis
        using except_clauses_text [of e] by (simp add: call_ollama_api_def try_body_def)
    next
      case (Inr result)
      from content_of_cases [of E result] show ?thesis
      proof (elim disjE exE conjE)
        fix e assume "content_of E result = Inl e"
        with \<open>post E (request_of self prompt) = Inr r\<close> True Inr show ?thesis
          using except_clauses_text [of e] by (simp add: call_ollama_api_def try_body_def)
      next
        fix s assume "content_of E result = Inr (PStr s)"
        with \<open>post E (request_of self prompt) = Inr r\<close> True Inr show ?thesis
          by (simp add: call_ollama_api_def try_body_def)
      next
        fix xs assume "list_content result" "content_of E result = Inr (PList xs)"
        with \<open>post E (request_of self prompt) = Inr r\<close> True Inr show ?thesis
          by (simp add: call_ollama_api_def try_body_def)
      qed
    qed
  qed
qed

lemma call_ollama_api_sent:
  "snd (call_ollama_api E self prompt sent) = sent @ [request_of self prompt]"
  by (simp add: call_ollama_api_def)

section \<open>\<open>call_ollama_api\<close> never returns \<open>None\<close>\<close>

text \<open>
  Claim C10, as the code has it. On every path \<open>call_ollama_api\<close> returns a value
  other than \<open>None\<close>, and it returns a text whenever the decoded body of a
  status-200 reply has no list at \<open>message.content\<close>: so on every other status, in
  every \<open>except\<close> clause, and when the content is a text or is missing. Hence the
  branch of \<open>classify_message\<close> that answers \<open>No response from Ollama API\<close> is taken
  for no input.
\<close>

theorem call_ollama_api_never_None:
  "fst (call_ollama_api E self prompt sent) \<noteq> PNone
   \<and> ((\<forall>r result. post E (request_of self prompt) = Inr r \<longrightarrow> status_code r = 200
          \<longrightarrow> json r = Inr result \<longrightarrow> \<not> list_content result)
        \<longrightarrow> (\<exists>s. fst (call_ollama_api E self prompt sent) = PStr s))
   \<and> fst (classify_message E self message sender_type sent) \<noteq>
       Inr [(''success'', PBool False),
            (''error'', PStr ''No response from Ollama API''),
            (''data'', PDict [])]"
proof (intro conjI impI)
  show "fst (call_ollama_api E self prompt sent) \<noteq> PNone"
    using call_ollama_api_cases [of E self prompt sent] by auto
next
  assume "\<forall>r result. post E (request_of self prompt) = Inr r \<longrightarrow> status_code r = 200
          \<longrightarrow> json r = Inr result \<longrightarrow> \<not> list_content result"
  then show "\<exists>s. fst (call_ollama_api E self prompt sent) = PStr s"
    using call_ollama_api_cases [of E self prompt sent] by blast
next
  let ?p = "generate_classification_prompt message sender_type"
  have "fst (call_ollama_api E self ?p sent) \<noteq> PNone"
    using call_ollama_api_cases [of E self ?p sent] by auto
  then show "fst (classify_message E self message sender_type sent) \<noteq>
       Inr [(''success'', PBool False),
            (''error'', PStr ''No response from Ollama API''),
            (''data'', PDict [])]"
    by (simp add: classify_message_def Let_def split_beta split: sum.splits)
qed

theorem call_ollama_api_never_None_witness:
  "fst (call_ollama_api (stub_env (Inr (http_reply 200 ''{}'' (PDict []))))
         default_processor ''hello'' []) \<noteq> PNone
   \<and> (\<exists>s. fst (call_ollama_api (stub_env (Inr (http_reply 200 ''{}'' (PDict []))))
         default_processor ''hello'' []) = PStr s)
   \<and> fst (classify_message (stub_env (Inr (http_reply 200 ''{}'' (PDict []))))
         default_processor ''hello'' ''AUTO'' []) \<noteq>
       Inr [(''success'', PBool False),
            (''error'', PStr ''No response from Ollama API''),
            (''data'', PDict [])]"
  using call_ollama_api_never_None [of "stub_env (Inr (http_reply 200 ''{}'' (PDict [])))"
          default_processor "''hello''" "[]" "''hello''" "''AUTO''"]
  by (simp add: stub_env_def http_reply_def list_content_def dict_get_def)

text \<open>
  The claim as written has a text returned on every path. A status-200 reply whose
  \<open>message.content\<close> is a JSON array passes \<open>len\<close> and the slice of the log lines,
  and the list itself is returned.
\<close>

theorem call_ollama_api_list_counterexample:
  "fst (call_ollama_api
         (stub_env (Inr (http_reply 200 ''{\"message\": {\"content\": [\"hi\"]}}''
            (PDict [(''message'', PDict [(''content'', PList [PStr ''hi''])])]))))
         default_processor ''hello'' [])
   = PList [PStr ''hi'']"
  by (simp add: call_ollama_api_def try_body_def content_of_def dict_get_def stub_env_def
        http_reply_def)

section \<open>Blank messages\<close>

text \<open>
  Claim C5. For every message that is empty or made of whitespace only,
  \<open>classify_message\<close> returns the failure with the error
  \<open>Please enter a message to classify\<close> and empty data, and sends nothing: the
  list of requests sent is the one it started with, while any call of
  \<open>call_ollama_api\<close> would have changed it.
\<close>

theorem blank_message_rejected:
  assumes "\<forall>c\<in>set message. isspace c"
  shows "classify_message E self message sender_type sent =
           (Inr [(''success'', PBool False),
                 (''error'', PStr ''Please enter a message to classify''),
                 (''data'', PDict [])],
            sent)
         \<and> snd (call_ollama_api E self prompt sent) \<noteq> sent"
  using assms by (simp add: classify_message_def strip_Nil_iff call_ollama_api_sent)

theorem blank_message_rejected_witness:
  "classify_message (stub_env (Inl connection_refused)) default_processor
       [CHR '' '', CHR 0x09, CHR 0x0A] ''AUTO'' [] =
           (Inr [(''success'', PBool False),
                 (''error'', PStr ''Please enter a message to classify''),
                 (''data'', PDict [])],
            [])
   \<and> classify_message (stub_env (Inl connection_refused)) default_processor [] ''AUTO'' [] =
           (Inr [(''success'', PBool False),
                 (''error'', PStr ''Please enter a message to classify''),
                 (''data'', PDict [])],
            [])"
  using blank_message_rejected [of "[CHR '' '', CHR 0x09, CHR 0x0A]"
          "stub_env (Inl connection_refused)" default_processor "''AUTO''" "[]" "[]"]
        blank_message_rejected [of "[]"
          "stub_env (Inl connection_refused)" default_processor "''AUTO''" "[]" "[]"]
  by (simp add: isspace_def)

section \<open>Success for every text reply\<close>

text \<open>
  Claim C3. For every message that is not blank, whenever \<open>call_ollama_api\<close> returns a
  text (also one that reports a transport or API error), \<open>classify_message\<close> returns
  \<open>success\<close> true, \<open>error\<close> \<open>None\<close>, the parsed fields as \<open>data\<close>, and the raw reply.
\<close>

theorem text_reply_is_success:
  assumes "\<not> (\<forall>c\<in>set message. isspace c)"
    and "fst (call_ollama_api E self (generate_classification_prompt message sender_type) sent)
           = PStr raw"
  shows "fst (classify_message E self message sender_type sent) =
           Inr [(''success'', PBool True),
                (''error'', PNone),
                (''data'', PDict (text_fields (parse_response raw))),
                (''raw_response'', PStr raw)]"
  using assms
  by (simp add: classify_message_def strip_Nil_iff Let_def split_beta parse_response_any_def)

theorem text_reply_is_success_witness:
  "fst (classify_message (stub_env (Inl connection_refused)) default_processor
          ''hello'' ''AUTO'' []) =
           Inr [(''success'', PBool True),
                (''error'', PNone),
                (''data'', PDict
                   [(''sender'', PStr ''Unknown''),
                    (''type'', PStr ''Unknown''),
                    (''aircraft'', PStr ''Not specified''),
                    (''details'', PStr ''Connection Error: refused''),
                    (''response'', PStr ''No response generated'')]),
                (''raw_response'', PStr ''Connection Error: refused'')]"
proof -
  have p: "text_fields (parse_response ''Connection Error: refused'') =
     [(''sender'', PStr ''Unknown''),
      (''type'', PStr ''Unknown''),
      (''aircraft'', PStr ''Not specified''),
      (''details'', PStr ''Connection Error: refused''),
      (''response'', PStr ''No response generated'')]"
    by code_simp
  have s: "\<not> (\<forall>c\<in>set ''hello''. isspace c)" by (simp add: isspace_def)
  have c: "fst (call_ollama_api (stub_env (Inl connection_refused)) default_processor
              (generate_classification_prompt ''hello'' ''AUTO'') [])
           = PStr ''Connection Error: refused''"
    by (simp add: call_ollama_api_def try_body_def except_clauses_def stub_env_def
          connection_refused_def)
  show ?thesis
    using text_reply_is_success [OF s c] p by simp
qed

section \<open>A status other than 200\<close>

text \<open>
  Claim C7. When the status of the HTTP response is not 200, \<open>call_ollama_api\<close>
  returns \<open>Error: HTTP \<close>, the status, \<open> - \<close> and the body; \<open>parse_response\<close> on that
  text gives it back as \<open>details\<close>; and for status 500 the text begins with
  \<open>Error: HTTP 500\<close>.
\<close>

theorem http_error_text:
  assumes "post E (request_of self prompt) = Inr r" and "status_code r \<noteq> 200"
  shows "fst (call_ollama_api E self prompt sent) =
           PStr (''Error: HTTP '' @ str_int (status_code r) @ '' - '' @ body_text r)
       \<and> map_of (parse_response
            (''Error: HTTP '' @ str_int (status_code r) @ '' - '' @ body_text r)) ''details''
           = Some (''Error: HTTP '' @ str_int (status_code r) @ '' - '' @ body_text r)
       \<and> (status_code r = 500 \<longrightarrow>
            startswith (''Error: HTTP '' @ str_int (status_code r) @ '' - '' @ body_text r)
              ''Error: HTTP 500'')"
proof (intro conjI impI)
  let ?t = "''Error: HTTP '' @ str_int (status_code r) @ '' - '' @ body_text r"
  show "fst (call_ollama_api E self prompt sent) = PStr ?t"
    using assms by (simp add: call_ollama_api_def try_body_def)
  have "contains ''Error:'' ([] @ ''Error:'' @ ('' HTTP '' @ str_int (status_code r) @ '' - '' @ body_text r))"
    by (rule contains_append)
  then have "contains ''Error:'' ?t" by simp
  then show "map_of (parse_response ?t) ''details'' = Some ?t"
    by (simp add: parse_response_def parsed_defaults_def)
  assume "status_code r = 500"
  moreover have "str_int 500 = ''500''" by code_simp
  moreover have "startswith (''Error: HTTP 500'' @ ('' - '' @ body_text r)) ''Error: HTTP 500''"
    by (rule startswith_append)
  ultimately show "startswith ?t ''Error: HTTP 500''" by simp
qed

theorem http_error_text_witness:
  "fst (call_ollama_api (stub_env (Inr (http_reply 500 ''boom'' PNone))) default_processor
         ''hello'' []) = PStr ''Error: HTTP 500 - boom''
   \<and> map_of (parse_response ''Error: HTTP 500 - boom'') ''details''
        = Some ''Error: HTTP 500 - boom''
   \<and> startswith ''Error: HTTP 500 - boom'' ''Error: HTTP 500''"
proof -
  have n: "str_int 500 = ''500''" by code_simp
  show ?thesis
    using http_error_text [of "stub_env (Inr (http_reply 500 ''boom'' PNone))" default_processor
            "''hello''" "http_reply 500 ''boom'' PNone" "[]"] n
    by (simp add: stub_env_def http_reply_def)
qed

section \<open>The fields of a reply\<close>

text \<open>
  Claim C8. The well-formed five-line reply of the emergency example is parsed into
  exactly its five values.
\<close>

theorem well_formed_reply_parsed:
  "parse_response
     ''SENDER: PILOT\<newline>TYPE: EMERGENCY\<newline>AIRCRAFT: N123AB\<newline>DETAILS: engine fire\<newline>RESPONSE: Declare emergency, cleared direct, N123AB''
   = [(''sender'', ''PILOT''),
      (''type'', ''EMERGENCY''),
      (''aircraft'', ''N123AB''),
      (''details'', ''engine fire''),
      (''response'', ''Declare emergency, cleared direct, N123AB'')]"
  by code_simp

text \<open>
  Claim C6. For every text, \<open>parse_response\<close> returns a dictionary with the five keys
  \<open>sender\<close>, \<open>type\<close>, \<open>aircraft\<close>, \<open>details\<close>, \<open>response\<close>, each once. It cannot
  fail: every step of the function is defined on every text, so the model is a
  total function with no error value. On a reply that is not short-circuited each
  field stands alone: it is the trimmed value of its own tag when the search finds
  one and accepts it, and its default otherwise, whatever the other tags do and
  wherever they are.
\<close>

theorem parse_response_keys_and_fields:
  "map fst (parse_response raw) = [''sender'', ''type'', ''aircraft'', ''details'', ''response'']
   \<and> (raw \<noteq> [] \<longrightarrow> \<not> contains ''Error:'' raw \<longrightarrow>
        (\<forall>(k, p) \<in> set patterns.
           map_of (parse_response raw) k =
             (case re_search p raw of
                None \<Rightarrow> map_of parsed_defaults k
              | Some g \<Rightarrow>
                  if strip g \<noteq> [] \<and> strip g \<noteq> ''[Not specified]'' \<and> strip g \<noteq> ''N/A''
                  then Some (strip g) else map_of parsed_defaults k)))"
  using keys_parse_response [of raw] field_of_parse_response [of raw] by blast

theorem parse_response_keys_and_fields_witness:
  "map fst (parse_response ''response: Roger\<newline>junk\<newline>SENDER: ATC'')
     = [''sender'', ''type'', ''aircraft'', ''details'', ''response'']
   \<and> map_of (parse_response ''response: Roger\<newline>junk\<newline>SENDER: ATC'') ''sender'' = Some ''ATC''
   \<and> map_of (parse_response ''response: Roger\<newline>junk\<newline>SENDER: ATC'') ''aircraft''
     = Some ''Not specified''"
proof -
  let ?raw = "''response: Roger\<newline>junk\<newline>SENDER: ATC''"
  have a: "?raw \<noteq> []" by simp
  have b: "\<not> contains ''Error:'' ?raw" by code_simp
  have s: "re_search (''SENDER:'', [Newline, EndOfText]) ?raw = Some ''ATC''" by code_simp
  have n: "re_search (''AIRCRAFT:'', [Newline, EndOfText]) ?raw = None" by code_simp
  have t: "strip ''ATC'' = ''ATC''" by code_simp
  show ?thesis
    using parse_response_keys_and_fields [of ?raw] a b s n t
    by (simp add: patterns_def parsed_defaults_def)
qed




section \<open>Where the details end\<close>

text \<open>
  Claim C2, as the code has it. In a reply without \<open>Error:\<close>, the \<open>details\<close> are taken
  after the first \<open>DETAILS:\<close> tag (in any case) and the whitespace that follows it,
  from the first other character up to the first line break, the next \<open>RESPONSE:\<close>
  tag or the end of the text, whichever comes first, and then trimmed. A value
  that goes on after a line break is cut at that line break.
\<close>

theorem details_cut_at_first_stop:
  assumes "\<forall>i<length pre. lit_ci ''DETAILS:'' (drop i (pre @ t @ ws @ c # v @ rest)) = None"
    and "map lower t = map lower ''DETAILS:''"
    and "\<forall>x\<in>set ws. isspace x" and "\<not> isspace c"
    and "\<forall>i<length v. v ! i \<noteq> CHR 0x0A \<and> lit_ci ''RESPONSE:'' (drop i (v @ rest)) = None"
    and "rest = [] \<or> (\<exists>r. rest = CHR 0x0A # r) \<or> lit_ci ''RESPONSE:'' rest \<noteq> None"
    and "\<not> contains ''Error:'' (pre @ t @ ws @ c # v @ rest)"
  shows "map_of (parse_response (pre @ t @ ws @ c # v @ rest)) ''details'' =
           Some (if strip (c # v) = ''[Not specified]'' \<or> strip (c # v) = ''N/A''
                 then ''No details provided'' else strip (c # v))"
proof -
  let ?raw = "pre @ t @ ws @ c # v @ rest"
  let ?sts = "[Newline, Literal ''RESPONSE:'', EndOfText]"
  have inside: "\<forall>i<length v. \<not> closes ?sts (drop i (v @ rest))"
  proof (intro allI impI)
    fix i assume i: "i < length v"
    then have d: "drop i (v @ rest) = v ! i # drop (Suc i) v @ rest"
      by (simp add: Cons_nth_drop_Suc)
    from i assms(5) have "v ! i \<noteq> CHR 0x0A" "lit_ci ''RESPONSE:'' (drop i (v @ rest)) = None"
      by blast+
    then show "\<not> closes ?sts (drop i (v @ rest))"
      unfolding closes_details using d by simp
  qed
  have "closes ?sts rest" using assms(6) by (simp only: closes_details)
  with inside have r: "re_search (''DETAILS:'', ?sts) ?raw = Some (c # v)"
    using assms(1-4) by (intro re_search_shape)
  have ne: "strip (c # v) \<noteq> []"
    using assms(4) by (auto simp: strip_Nil_iff)
  have "(''details'', (''DETAILS:'', ?sts)) \<in> set patterns" by (simp add: patterns_def)
  from field_of_parse_response [OF _ assms(7) this] r ne show ?thesis
    by (simp add: parsed_defaults_def)
qed

theorem details_cut_at_first_stop_witness:
  "map_of (parse_response ''Details: fire\<newline>smoke\<newline>RESPONSE: Roger'') ''details'' = Some ''fire''"
proof -
  have 1: "\<forall>i<length ([]::string). lit_ci ''DETAILS:''
      (drop i ([] @ ''Details:'' @ '' '' @ CHR ''f'' # ''ire'' @ ''\<newline>smoke\<newline>RESPONSE: Roger'')) = None"
    by simp
  have 2: "map lower ''Details:'' = map lower ''DETAILS:''" by code_simp
  have 3: "\<forall>x\<in>set '' ''. isspace x" by (simp add: isspace_def)
  have 4: "\<not> isspace CHR ''f''" by (simp add: isspace_def)
  have 5: "\<forall>i<length ''ire''. ''ire'' ! i \<noteq> CHR 0x0A
      \<and> lit_ci ''RESPONSE:'' (drop i (''ire'' @ ''\<newline>smoke\<newline>RESPONSE: Roger'')) = None"
    by (simp add: All_less_Suc numeral_3_eq_3 lower_def)
  have 6: "''\<newline>smoke\<newline>RESPONSE: Roger'' = []
      \<or> (\<exists>r. ''\<newline>smoke\<newline>RESPONSE: Roger'' = CHR 0x0A # r)
      \<or> lit_ci ''RESPONSE:'' ''\<newline>smoke\<newline>RESPONSE: Roger'' \<noteq> None"
    by simp
  have 7: "\<not> contains ''Error:''
      ([] @ ''Details:'' @ '' '' @ CHR ''f'' # ''ire'' @ ''\<newline>smoke\<newline>RESPONSE: Roger'')"
    by code_simp
  have s: "strip ''fire'' = ''fire''" by code_simp
  show ?thesis
    using details_cut_at_first_stop [OF 1 2 3 4 5 6 7] s by simp
qed

text \<open>
  The claim as written has a value that spans line breaks returned in full. Of the
  two lines between \<open>DETAILS:\<close> and \<open>RESPONSE:\<close> only the first is returned.
\<close>

theorem details_not_in_full_counterexample:
  "map_of (parse_response ''DETAILS: fire\<newline>smoke\<newline>RESPONSE: Roger'') ''details'' = Some ''fire''
   \<and> ''fire'' \<noteq> ''fire\<newline>smoke''"
  by code_simp

end
